theory Spec2Isabelle
  imports Complex_Main
begin

section \<open>Values of the host language\<close>

text \<open>
  The generator is one JavaScript module, \<^verbatim>\<open>src/main.mjs\<close>. It reads the opcode table
  with \<^verbatim>\<open>JSON.parse\<close>, so a field of a table record may be absent; reading an absent
  field gives \<^verbatim>\<open>undefined\<close>. A value that is a string or \<^verbatim>\<open>undefined\<close> is a
  \<^typ>\<open>string option\<close>, with \<^term>\<open>None\<close> for \<^verbatim>\<open>undefined\<close>.

  A \<^typ>\<open>char\<close> is one code unit in the range U+0000 .. U+00FF (the table is ASCII).
\<close>

text \<open>String coercion of a template literal and of \<^verbatim>\<open>+=\<close> on strings.\<close>

definition to_str :: "string option \<Rightarrow> string" where
  "to_str v = (case v of None \<Rightarrow> ''undefined'' | Some s \<Rightarrow> s)"

text \<open>
  \<^verbatim>\<open>Array.prototype.join\<close>: the elements separated by \<open>sep\<close>; an element that is
  \<^verbatim>\<open>undefined\<close> contributes the empty string.
\<close>

definition join_elem :: "string option \<Rightarrow> string" where
  "join_elem v = (case v of None \<Rightarrow> [] | Some s \<Rightarrow> s)"

fun js_join :: "string \<Rightarrow> string option list \<Rightarrow> string" where
  "js_join sep [] = []"
| "js_join sep [x] = join_elem x"
| "js_join sep (x # y # ys) = join_elem x @ sep @ js_join sep (y # ys)"

text \<open>\<^verbatim>\<open>String.prototype.toLowerCase\<close> on the code units U+0000 .. U+00FF.\<close>

definition is_upper :: "char \<Rightarrow> bool" where
  "is_upper c =
     (let n = (of_char c :: nat)
      in (65 \<le> n \<and> n \<le> 90) \<or> (192 \<le> n \<and> n \<le> 222 \<and> n \<noteq> 215))"

definition lower_char :: "char \<Rightarrow> char" where
  "lower_char c = (if is_upper c then char_of ((of_char c :: nat) + 32) else c)"

definition toLowerCase :: "string \<Rightarrow> string" where
  "toLowerCase s = map lower_char s"

text \<open>\<^verbatim>\<open>replaceAll('$', '')\<close>: every dollar sign is dropped.\<close>

definition replaceAll_dollar :: "string \<Rightarrow> string" where
  "replaceAll_dollar s = filter (\<lambda>c. c \<noteq> CHR ''$'') s"

text \<open>
  \<^verbatim>\<open>String.prototype.trim\<close>: white space and line terminators are removed from both
  ends. In the range of \<^typ>\<open>char\<close> these are TAB, LF, VT, FF, CR, SPACE and U+00A0.
\<close>

definition is_space :: "char \<Rightarrow> bool" where
  "is_space c =
     (let n = (of_char c :: nat) in (9 \<le> n \<and> n \<le> 13) \<or> n = 32 \<or> n = 160)"

definition trim :: "string \<Rightarrow> string" where
  "trim s = rev (dropWhile is_space (rev (dropWhile is_space s)))"

text \<open>
  Numbers. The only arithmetic of the program is \<^verbatim>\<open>cycles[0] / 4\<close>. The table's cycle
  counts are integers, and a division of an integer below \<open>2^53\<close> by four is exact in
  binary floating point, so the quotient is a rational number; dividing
  \<^verbatim>\<open>undefined\<close> gives \<^verbatim>\<open>NaN\<close>.
\<close>

datatype jsnum = NaN | Number rat

fun digits :: "nat \<Rightarrow> string" where
  "digits n =
     (if n < 10 then [char_of (48 + n)]
      else digits (n div 10) @ [char_of (48 + n mod 10)])"

declare digits.simps [simp del]

text \<open>
  The digits after the decimal point of a number with at most two of them, given in
  hundredths: none for 0, one digit when the second is 0.
\<close>

definition fraction :: "nat \<Rightarrow> string" where
  "fraction h =
     (if h = 0 then []
      else if h mod 10 = 0 then CHR ''.'' # digits (h div 10)
      else [CHR ''.'', char_of (48 + h div 10), char_of (48 + h mod 10)])"

text \<open>
  \<^verbatim>\<open>Number::toString\<close>, as the template literal applies it, which prints the shortest
  decimal that reads back as the same number. For a multiple of 1/4 of magnitude below
  \<open>2^49\<close> (the quotient of every cycle count of the table is one) this is the exact
  decimal: the integer part, then nothing, \<^verbatim>\<open>.25\<close>, \<^verbatim>\<open>.5\<close> or \<^verbatim>\<open>.75\<close>. The
  definition gives the exact decimal everywhere, so from \<open>2^49\<close> up it is no longer the
  text of the program, which drops digits there and writes an exponent from \<open>10^21\<close>.
  The evaluations below use it at 1/4, 1, 2, 3 and 4 only.
\<close>

definition number_to_string :: "jsnum \<Rightarrow> string" where
  "number_to_string x =
     (case x of
        NaN \<Rightarrow> ''NaN''
      | Number q \<Rightarrow>
          (let a = \<bar>q\<bar>; k = \<lfloor>a\<rfloor>; h = nat \<lfloor>(a - of_int k) * 100\<rfloor>
           in (if q < 0 then ''-'' else []) @ digits (nat k) @ fraction h))"

section \<open>The opcode table\<close>

text \<open>
  The table is the list that \<^verbatim>\<open>Object.entries\<close> gives: the keys with their entries, in the
  order of the table. Every entry and every operand is an object; a field of it may be
  absent. The flags of an operand are only tested for truth, and an absent flag reads as
  \<^verbatim>\<open>undefined\<close>, which is false in a test: \<^term>\<open>False\<close> stands for both. The cycle
  counts are integers.
\<close>

record operand =
  name :: "string option"
  immediate :: bool
  increment :: bool
  decrement :: bool

record entry =
  mnemonic :: "string option"
  operands :: "operand list option"
  cycles :: "int list option"

section \<open>The generator\<close>

text \<open>The two arrays the operand callback pushes to.\<close>

record acc =
  testNames :: "string option list"
  machineCode :: "string list"

definition push_name :: "string option \<Rightarrow> acc \<Rightarrow> acc" where
  "push_name p st = st\<lparr>testNames := testNames st @ [p]\<rparr>"

definition push_byte :: "string \<Rightarrow> acc \<Rightarrow> acc" where
  "push_byte b st = st\<lparr>machineCode := machineCode st @ [b]\<rparr>"

text \<open>Lines 11 to 20: the suffix of the value and the part of the test name.\<close>

definition suffix_step :: "operand \<Rightarrow> acc \<Rightarrow> string option \<times> acc" where
  "suffix_step op st =
     (if increment op then
        (Some (to_str (name op) @ ''+''),
         push_name (Some (to_str (name op) @ ''_increment'')) st)
      else if decrement op then
        (Some (to_str (name op) @ ''-''),
         push_name (Some (to_str (name op) @ ''_decrement'')) st)
      else (name op, push_name (name op) st))"

text \<open>Lines 21 to 37: the \<^verbatim>\<open>switch\<close> on the name of the operand.\<close>

definition switch_name :: "string option \<Rightarrow> string option \<Rightarrow> acc \<Rightarrow> string option \<times> acc" where
  "switch_name n v st =
     (if n = Some ''n16'' \<or> n = Some ''a16'' then
        (Some ''0x1234'', push_byte ''0x12'' (push_byte ''0x34'' st))
      else if n = Some ''n8'' \<or> n = Some ''a8'' then
        (Some ''0x12'', push_byte ''0x12'' st)
      else if n = Some ''e8'' then
        (Some ''123'', push_byte ''0x7B'' st)
      else (v, st))"

text \<open>Line 39: the value as it is, or in parentheses.\<close>

definition wrap :: "bool \<Rightarrow> string option \<Rightarrow> string option" where
  "wrap imm v = (if imm then v else Some (''('' @ to_str v @ '')''))"

text \<open>Lines 11 to 37: the value of the operand before line 39 wraps it.\<close>

definition rendered_value :: "operand \<Rightarrow> acc \<Rightarrow> string option \<times> acc" where
  "rendered_value op st =
     (let (v, st1) = suffix_step op st in switch_name (name op) v st1)"

text \<open>The callback of \<^verbatim>\<open>operands.map\<close>, lines 10 to 40.\<close>

definition operand_callback :: "operand \<Rightarrow> acc \<Rightarrow> string option \<times> acc" where
  "operand_callback op st =
     (let (v, st1) = rendered_value op st in (wrap (immediate op) v, st1))"

text \<open>\<^verbatim>\<open>operands.map\<close>: the callback on each operand in order, the arrays threaded through.\<close>

fun map_operands :: "operand list \<Rightarrow> acc \<Rightarrow> string option list \<times> acc" where
  "map_operands [] st = ([], st)"
| "map_operands (op # ops) st =
     (let (t, st1) = operand_callback op st;
          (ts, st2) = map_operands ops st1
      in (t # ts, st2))"

text \<open>The arrays as line 7 and line 8 initialise them.\<close>

definition init :: "string \<Rightarrow> entry \<Rightarrow> acc" where
  "init opcode e = \<lparr>testNames = [mnemonic e], machineCode = [opcode]\<rparr>"

text \<open>Line 44.\<close>

definition test_name :: "string option list \<Rightarrow> string" where
  "test_name parts = replaceAll_dollar (toLowerCase (js_join ''_'' parts))"

text \<open>Line 45: \<^verbatim>\<open>cycles[0] / 4\<close>, where \<^verbatim>\<open>cycles[0]\<close> of an empty array is \<^verbatim>\<open>undefined\<close>.\<close>

definition machine_cycles :: "int list \<Rightarrow> jsnum" where
  "machine_cycles cs = (case cs of [] \<Rightarrow> NaN | c # _ \<Rightarrow> Number (of_int c / 4))"

text \<open>The four values that the line of an entry is made of.\<close>

record descriptor =
  testName :: string
  code :: "string list"
  assembly :: string
  machineCycles :: jsnum

datatype error = TypeError

text \<open>
  The body of the callback on a table entry, lines 7 to 45. Calling \<^verbatim>\<open>map\<close> on absent
  \<^verbatim>\<open>operands\<close>, and indexing absent \<^verbatim>\<open>cycles\<close>, throw a \<^verbatim>\<open>TypeError\<close>; the
  operands are mapped before the cycles are read.
\<close>

definition describe :: "string \<Rightarrow> entry \<Rightarrow> error + descriptor" where
  "describe opcode e =
     (case operands e of
        None \<Rightarrow> Inl TypeError
      | Some ops \<Rightarrow>
          (let (tokens, st) = map_operands ops (init opcode e);
               operandString = js_join '', '' tokens;
               asm = trim (to_str (mnemonic e) @ '' '' @ operandString);
               tn = test_name (testNames st)
           in case cycles e of
                None \<Rightarrow> Inl TypeError
              | Some cs \<Rightarrow>
                  Inr \<lparr>testName = tn, code = machineCode st, assembly = asm,
                       machineCycles = machine_cycles cs\<rparr>))"

text \<open>Line 46: the text given to \<^verbatim>\<open>console.log\<close>.\<close>

definition line :: "descriptor \<Rightarrow> string" where
  "line d =
     ''            '' @ testName d @ '': '' @ js_join '', '' (map Some (code d))
       @ '' => '' @ [CHR 0x22] @ assembly d @ [CHR 0x22] @ '', ''
       @ number_to_string (machineCycles d) @ '',''"

text \<open>
  The run over \<^verbatim>\<open>Object.entries\<close> of the table, in its order: the lines written, and
  the exception that ended the run, if one did.
\<close>

fun run :: "(string \<times> entry) list \<Rightarrow> string list \<times> error option" where
  "run [] = ([], None)"
| "run ((opcode, e) # rest) =
     (case describe opcode e of
        Inl err \<Rightarrow> ([], Some err)
      | Inr d \<Rightarrow> (let (ls, r) = run rest in (line d # ls, r)))"

section \<open>What one operand contributes\<close>

text \<open>The element that lines 14, 17 and 19 push to \<^verbatim>\<open>testNames\<close>.\<close>

definition name_part :: "operand \<Rightarrow> string option" where
  "name_part op =
     (if increment op then Some (to_str (name op) @ ''_increment'')
      else if decrement op then Some (to_str (name op) @ ''_decrement'')
      else name op)"

text \<open>
  The names of the cases of the \<^verbatim>\<open>switch\<close>: lines 22 and 23 push two elements, lines
  28, 29 and 33 push one. The counts are those of the operands with such a name; the
  specification counts the placeholder operands, which are both kinds together.
\<close>

definition two_byte_name :: "string option \<Rightarrow> bool" where
  "two_byte_name n = (n = Some ''n16'' \<or> n = Some ''a16'')"

definition one_byte_name :: "string option \<Rightarrow> bool" where
  "one_byte_name n = (n = Some ''n8'' \<or> n = Some ''a8'' \<or> n = Some ''e8'')"

definition placeholder_count :: "operand list \<Rightarrow> nat" where
  "placeholder_count ops =
     length (filter (\<lambda>op. two_byte_name (name op) \<or> one_byte_name (name op)) ops)"

definition two_byte_count :: "operand list \<Rightarrow> nat" where
  "two_byte_count ops = length (filter (\<lambda>op. two_byte_name (name op)) ops)"

definition one_byte_count :: "operand list \<Rightarrow> nat" where
  "one_byte_count ops = length (filter (\<lambda>op. one_byte_name (name op)) ops)"

text \<open>A string that begins or ends with a character that \<^verbatim>\<open>trim\<close> removes.\<close>

definition padded :: "string \<Rightarrow> bool" where
  "padded s = (case s of [] \<Rightarrow> False | c # _ \<Rightarrow> is_space c \<or> is_space (last s))"

section \<open>How the arrays grow\<close>

lemma suffix_step_code: "machineCode (snd (suffix_step op st)) = machineCode st"
  by (simp add: suffix_step_def push_name_def)

lemma suffix_step_names: "testNames (snd (suffix_step op st)) = testNames st @ [name_part op]"
  by (simp add: suffix_step_def push_name_def name_part_def)

lemma switch_name_names: "testNames (snd (switch_name n v st)) = testNames st"
  by (simp add: switch_name_def push_byte_def)

lemma switch_name_code:
  "machineCode (snd (switch_name n v st)) = machineCode st @
     (if n = Some ''n16'' \<or> n = Some ''a16'' then [''0x34'', ''0x12'']
      else if n = Some ''n8'' \<or> n = Some ''a8'' then [''0x12'']
      else if n = Some ''e8'' then [''0x7B''] else [])"
  by (simp add: switch_name_def push_byte_def)

lemma callback_names: "testNames (snd (operand_callback op st)) = testNames st @ [name_part op]"
  by (simp add: operand_callback_def rendered_value_def split_def Let_def switch_name_names suffix_step_names)

lemma callback_code_length:
  "length (machineCode (snd (operand_callback op st))) = length (machineCode st) +
     (if two_byte_name (name op) then 2 else if one_byte_name (name op) then 1 else 0)"
  by (simp add: operand_callback_def rendered_value_def split_def Let_def switch_name_code suffix_step_code
      two_byte_name_def one_byte_name_def)

lemma map_operands_names: "testNames (snd (map_operands ops st)) = testNames st @ map name_part ops"
  by (induction ops arbitrary: st) (simp_all add: split_def Let_def callback_names)

lemma map_operands_code_length:
  "length (machineCode (snd (map_operands ops st))) =
     length (machineCode st) + 2 * two_byte_count ops + one_byte_count ops"
  by (induction ops arbitrary: st)
     (simp_all add: split_def Let_def callback_code_length two_byte_count_def one_byte_count_def
        two_byte_name_def one_byte_name_def)

lemma callback_code_prefix: "\<exists>bs. machineCode (snd (operand_callback op st)) = machineCode st @ bs"
  by (simp add: operand_callback_def rendered_value_def split_def Let_def switch_name_code suffix_step_code)

lemma map_operands_code_prefix: "\<exists>bs. machineCode (snd (map_operands ops st)) = machineCode st @ bs"
proof (induction ops arbitrary: st)
  case Nil
  show ?case by simp
next
  case (Cons op ops)
  obtain bs where a: "machineCode (snd (operand_callback op st)) = machineCode st @ bs"
    using callback_code_prefix by blast
  obtain cs where b: "machineCode (snd (map_operands ops (snd (operand_callback op st)))) =
      machineCode (snd (operand_callback op st)) @ cs"
    using Cons.IH by blast
  show ?case by (simp add: split_def Let_def a b)
qed


lemma placeholder_count_split: "placeholder_count ops = two_byte_count ops + one_byte_count ops"
  by (induction ops)
     (auto simp: placeholder_count_def two_byte_count_def one_byte_count_def
        two_byte_name_def one_byte_name_def)

lemma describe_Inr:
  assumes "describe opcode e = Inr d" and "operands e = Some ops"
  shows "testName d = test_name (testNames (snd (map_operands ops (init opcode e))))"
    and "code d = machineCode (snd (map_operands ops (init opcode e)))"
    and "assembly d = trim (to_str (mnemonic e) @ '' '' @ js_join '', '' (fst (map_operands ops (init opcode e))))"
    and "\<exists>cs. cycles e = Some cs \<and> machineCycles d = machine_cycles cs"
  using assms by (auto simp: describe_def split_def Let_def split: option.splits)

lemma rendered_value_fst:
  "fst (rendered_value op st) =
     (if name op = Some ''n16'' \<or> name op = Some ''a16'' then Some ''0x1234''
      else if name op = Some ''n8'' \<or> name op = Some ''a8'' then Some ''0x12''
      else if name op = Some ''e8'' then Some ''123''
      else if increment op then Some (to_str (name op) @ ''+'')
      else if decrement op then Some (to_str (name op) @ ''-'')
      else name op)"
  by (simp add: rendered_value_def split_def Let_def switch_name_def suffix_step_def)

lemma rendered_value_code:
  "machineCode (snd (rendered_value op st)) = machineCode st @
     (if name op = Some ''n16'' \<or> name op = Some ''a16'' then [''0x34'', ''0x12'']
      else if name op = Some ''n8'' \<or> name op = Some ''a8'' then [''0x12'']
      else if name op = Some ''e8'' then [''0x7B'']
      else [])"
  by (simp add: rendered_value_def split_def Let_def switch_name_code suffix_step_code)

lemma rendered_value_names:
  "testNames (snd (rendered_value op st)) = testNames st @ [name_part op]"
  by (simp add: rendered_value_def split_def Let_def switch_name_names suffix_step_names)

lemma callback_fst: "fst (operand_callback op st) = wrap (immediate op) (fst (rendered_value op st))"
  by (simp add: operand_callback_def split_def Let_def)

lemma callback_snd: "snd (operand_callback op st) = snd (rendered_value op st)"
  by (simp add: operand_callback_def split_def Let_def)

lemma callback_token_state: "fst (operand_callback op st) = fst (operand_callback op st')"
  by (simp add: callback_fst rendered_value_fst)

lemma map_operands_tokens:
  "fst (map_operands ops st) = map (\<lambda>op. fst (operand_callback op st')) ops"
proof (induction ops arbitrary: st)
  case Nil
  show ?case by simp
next
  case (Cons op ops)
  have "fst (operand_callback op st) = fst (operand_callback op st')"
    by (rule callback_token_state)
  then show ?case
    by (simp add: split_def Let_def Cons.IH)
qed

section \<open>The length of the machine code\<close>

text \<open>
  C2 (as amended). The machine code of an entry has one element for the opcode, two for each
  operand named \<^verbatim>\<open>n16\<close> or \<^verbatim>\<open>a16\<close> and one for each operand named \<^verbatim>\<open>n8\<close>,
  \<^verbatim>\<open>a8\<close> or \<^verbatim>\<open>e8\<close>; one operand adds two, one or no elements accordingly. The
  number of placeholder operands is the length less one exactly when no operand is named
  \<^verbatim>\<open>n16\<close> or \<^verbatim>\<open>a16\<close>.
\<close>

theorem machine_code_length:
  assumes "describe opcode e = Inr d" and "operands e = Some ops"
  shows "length (code d) = 1 + 2 * two_byte_count ops + one_byte_count ops
    \<and> placeholder_count ops = two_byte_count ops + one_byte_count ops
    \<and> (length (code d) - 1 = placeholder_count ops) = (two_byte_count ops = 0)
    \<and> length (machineCode (snd (operand_callback op st))) = length (machineCode st) +
         (if two_byte_name (name op) then 2 else if one_byte_name (name op) then 1 else 0)"
proof -
  have "code d = machineCode (snd (map_operands ops (init opcode e)))"
    using assms by (rule describe_Inr)
  then have len: "length (code d) = 1 + 2 * two_byte_count ops + one_byte_count ops"
    by (simp add: map_operands_code_length init_def)
  show ?thesis
    using len by (simp add: placeholder_count_split callback_code_length)
qed

theorem machine_code_length_witness:
  "describe ''0x36''
     \<lparr>mnemonic = Some ''LD'',
      operands = Some [\<lparr>name = Some ''HL'', immediate = False, increment = False, decrement = False\<rparr>,
                       \<lparr>name = Some ''n8'', immediate = True, increment = False, decrement = False\<rparr>],
      cycles = Some [12]\<rparr>
   = Inr \<lparr>testName = ''ld_hl_n8'', code = [''0x36'', ''0x12''],
          assembly = ''LD (HL), 0x12'', machineCycles = Number 3\<rparr>
   \<and> length [''0x36'', ''0x12''] =
       1 + 2 * two_byte_count
             [\<lparr>name = Some ''HL'', immediate = False, increment = False, decrement = False\<rparr>,
              \<lparr>name = Some ''n8'', immediate = True, increment = False, decrement = False\<rparr>]
         + one_byte_count
             [\<lparr>name = Some ''HL'', immediate = False, increment = False, decrement = False\<rparr>,
              \<lparr>name = Some ''n8'', immediate = True, increment = False, decrement = False\<rparr>]"
proof -
  have d: "describe ''0x36''
     \<lparr>mnemonic = Some ''LD'',
      operands = Some [\<lparr>name = Some ''HL'', immediate = False, increment = False, decrement = False\<rparr>,
                       \<lparr>name = Some ''n8'', immediate = True, increment = False, decrement = False\<rparr>],
      cycles = Some [12]\<rparr>
   = Inr \<lparr>testName = ''ld_hl_n8'', code = [''0x36'', ''0x12''],
          assembly = ''LD (HL), 0x12'', machineCycles = Number 3\<rparr>"
    by code_simp
  show ?thesis
    using d machine_code_length
      [OF d, of _ "\<lparr>name = Some ''n8'', immediate = True, increment = False, decrement = False\<rparr>"
         "\<lparr>testNames = [Some ''LD''], machineCode = [''0x36'']\<rparr>"] by simp
qed

text \<open>
  C2 as the specification states it fails on the entry \<^verbatim>\<open>LD BC, n16\<close>: one placeholder
  operand, three elements of machine code.
\<close>

theorem machine_code_length_counterexample:
  "describe ''0x01''
     \<lparr>mnemonic = Some ''LD'',
      operands = Some [\<lparr>name = Some ''BC'', immediate = True, increment = False, decrement = False\<rparr>,
                       \<lparr>name = Some ''n16'', immediate = True, increment = False, decrement = False\<rparr>],
      cycles = Some [12]\<rparr>
   = Inr \<lparr>testName = ''ld_bc_n16'', code = [''0x01'', ''0x34'', ''0x12''],
          assembly = ''LD BC, 0x1234'', machineCycles = Number 3\<rparr>
   \<and> placeholder_count
        [\<lparr>name = Some ''BC'', immediate = True, increment = False, decrement = False\<rparr>,
         \<lparr>name = Some ''n16'', immediate = True, increment = False, decrement = False\<rparr>] = 1
   \<and> length [''0x01'', ''0x34'', ''0x12''] - 1 \<noteq>
       placeholder_count
        [\<lparr>name = Some ''BC'', immediate = True, increment = False, decrement = False\<rparr>,
         \<lparr>name = Some ''n16'', immediate = True, increment = False, decrement = False\<rparr>]"
  by code_simp


section \<open>The placeholder substitution\<close>

text \<open>
  C1 (as amended). The value of an operand after the \<^verbatim>\<open>switch\<close> depends on the name
  alone when the name is a placeholder, whatever the flags are: \<^verbatim>\<open>0x1234\<close> for
  \<^verbatim>\<open>n16\<close> and \<^verbatim>\<open>a16\<close>, with the elements \<^verbatim>\<open>0x34\<close> and \<^verbatim>\<open>0x12\<close> appended to
  the machine code in this order; \<^verbatim>\<open>0x12\<close> for \<^verbatim>\<open>n8\<close> and \<^verbatim>\<open>a8\<close>, with the element
  \<^verbatim>\<open>0x12\<close>; \<^verbatim>\<open>123\<close> for \<^verbatim>\<open>e8\<close>, with the element \<^verbatim>\<open>0x7B\<close>. For any other
  name nothing is appended and the value stays as lines 12 to 20 left it: the name followed
  by \<^verbatim>\<open>+\<close> under the increment flag, else by \<^verbatim>\<open>-\<close> under the decrement flag, else the
  name as it is. The immediate flag has no part in it.
\<close>

theorem placeholder_substitution:
  "fst (rendered_value op st) =
     (if name op = Some ''n16'' \<or> name op = Some ''a16'' then Some ''0x1234''
      else if name op = Some ''n8'' \<or> name op = Some ''a8'' then Some ''0x12''
      else if name op = Some ''e8'' then Some ''123''
      else if increment op then Some (to_str (name op) @ ''+'')
      else if decrement op then Some (to_str (name op) @ ''-'')
      else name op)
   \<and> machineCode (snd (rendered_value op st)) = machineCode st @
     (if name op = Some ''n16'' \<or> name op = Some ''a16'' then [''0x34'', ''0x12'']
      else if name op = Some ''n8'' \<or> name op = Some ''a8'' then [''0x12'']
      else if name op = Some ''e8'' then [''0x7B'']
      else [])
   \<and> rendered_value (op\<lparr>immediate := b\<rparr>) st = rendered_value op st"
proof -
  have "rendered_value (op\<lparr>immediate := b\<rparr>) st = rendered_value op st"
    by (simp add: rendered_value_def suffix_step_def)
  then show ?thesis
    using rendered_value_fst [of op st] rendered_value_code [of op st] by simp
qed

theorem placeholder_substitution_witness:
  "fst (rendered_value \<lparr>name = Some ''a16'', immediate = False, increment = True, decrement = False\<rparr>
          \<lparr>testNames = [Some ''LD''], machineCode = [''0xEA'']\<rparr>) = Some ''0x1234''
   \<and> machineCode (snd (rendered_value
          \<lparr>name = Some ''a16'', immediate = False, increment = True, decrement = False\<rparr>
          \<lparr>testNames = [Some ''LD''], machineCode = [''0xEA'']\<rparr>)) = [''0xEA'', ''0x34'', ''0x12'']"
  using placeholder_substitution
    [of "\<lparr>name = Some ''a16'', immediate = False, increment = True, decrement = False\<rparr>"
        "\<lparr>testNames = [Some ''LD''], machineCode = [''0xEA'']\<rparr>" False]
  by simp

text \<open>
  C1 as the specification states it fails for a name that is no placeholder and carries a
  flag: the operand \<^verbatim>\<open>HL\<close> with the increment flag has the value \<^verbatim>\<open>HL+\<close>, not its name.
\<close>

theorem placeholder_substitution_counterexample:
  "name \<lparr>name = Some ''HL'', immediate = False, increment = True, decrement = False\<rparr> = Some ''HL''
   \<and> fst (rendered_value \<lparr>name = Some ''HL'', immediate = False, increment = True, decrement = False\<rparr>
          \<lparr>testNames = [Some ''LD'', Some ''A''], machineCode = [''0x2A'']\<rparr>) = Some ''HL+''
   \<and> fst (rendered_value \<lparr>name = Some ''HL'', immediate = False, increment = True, decrement = False\<rparr>
          \<lparr>testNames = [Some ''LD'', Some ''A''], machineCode = [''0x2A'']\<rparr>)
       \<noteq> name \<lparr>name = Some ''HL'', immediate = False, increment = True, decrement = False\<rparr>
   \<and> describe ''0x2A''
        \<lparr>mnemonic = Some ''LD'',
         operands = Some [\<lparr>name = Some ''A'', immediate = True, increment = False, decrement = False\<rparr>,
                          \<lparr>name = Some ''HL'', immediate = False, increment = True, decrement = False\<rparr>],
         cycles = Some [8]\<rparr>
       = Inr \<lparr>testName = ''ld_a_hl_increment'', code = [''0x2A''],
              assembly = ''LD A, (HL+)'', machineCycles = Number 2\<rparr>"
  by code_simp

section \<open>Parentheses\<close>

text \<open>
  C3. The token of an operand is its value when the operand is immediate, and the value in
  parentheses when it is not; the arrays are as the value left them. The operand
  \<^verbatim>\<open>a16\<close> that is not immediate gives the token \<^verbatim>\<open>(0x1234)\<close> and appends the elements
  \<^verbatim>\<open>0x34\<close> and \<^verbatim>\<open>0x12\<close> to the machine code.
\<close>

theorem rendered_token:
  "fst (operand_callback op st) =
     (if immediate op then fst (rendered_value op st)
      else Some (''('' @ to_str (fst (rendered_value op st)) @ '')''))
   \<and> snd (operand_callback op st) = snd (rendered_value op st)
   \<and> operand_callback \<lparr>name = Some ''a16'', immediate = False, increment = False, decrement = False\<rparr> st
       = (Some ''(0x1234)'',
          st\<lparr>testNames := testNames st @ [Some ''a16''],
             machineCode := machineCode st @ [''0x34'', ''0x12'']\<rparr>)"
  by (simp add: operand_callback_def rendered_value_def split_def Let_def wrap_def
      switch_name_def suffix_step_def push_name_def push_byte_def to_str_def)

theorem rendered_token_witness:
  "operand_callback \<lparr>name = Some ''a16'', immediate = False, increment = False, decrement = False\<rparr>
       \<lparr>testNames = [Some ''LD''], machineCode = [''0xFA'']\<rparr>
     = (Some ''(0x1234)'', \<lparr>testNames = [Some ''LD'', Some ''a16''], machineCode = [''0xFA'', ''0x34'', ''0x12'']\<rparr>)"
  using rendered_token
    [of "\<lparr>name = Some ''a16'', immediate = False, increment = False, decrement = False\<rparr>"
        "\<lparr>testNames = [Some ''LD''], machineCode = [''0xFA'']\<rparr>"]
  by simp


section \<open>Increment and decrement\<close>

text \<open>
  C4. Lines 12 to 20 append \<^verbatim>\<open>+\<close> to the value and push the name followed by
  \<^verbatim>\<open>_increment\<close> when the increment flag is set; else they append \<^verbatim>\<open>-\<close> and push the
  name followed by \<^verbatim>\<open>_decrement\<close> when the decrement flag is set; else they push the name
  as it is. Nothing else pushes to the test names. The immediate operand \<^verbatim>\<open>HL\<close> with the
  increment flag gives the token \<^verbatim>\<open>HL+\<close> and the part \<^verbatim>\<open>HL_increment\<close>, which the test
  name has in lower case.
\<close>

theorem suffix_and_name_part:
  "fst (suffix_step op st) =
     (if increment op then Some (to_str (name op) @ ''+'')
      else if decrement op then Some (to_str (name op) @ ''-'')
      else name op)
   \<and> testNames (snd (suffix_step op st)) = testNames st @
     [if increment op then Some (to_str (name op) @ ''_increment'')
      else if decrement op then Some (to_str (name op) @ ''_decrement'')
      else name op]
   \<and> testNames (snd (operand_callback op st)) = testNames (snd (suffix_step op st))
   \<and> operand_callback \<lparr>name = Some ''HL'', immediate = True, increment = True, decrement = False\<rparr> st
       = (Some ''HL+'', st\<lparr>testNames := testNames st @ [Some ''HL_increment'']\<rparr>)
   \<and> test_name [Some ''LD'', Some ''HL_increment'', Some ''A''] = ''ld_hl_increment_a''"
proof -
  have "test_name [Some ''LD'', Some ''HL_increment'', Some ''A''] = ''ld_hl_increment_a''"
    by code_simp
  moreover have "operand_callback \<lparr>name = Some ''HL'', immediate = True, increment = True, decrement = False\<rparr> st
       = (Some ''HL+'', st\<lparr>testNames := testNames st @ [Some ''HL_increment'']\<rparr>)"
    by (simp add: operand_callback_def rendered_value_def split_def Let_def wrap_def
        switch_name_def suffix_step_def push_name_def to_str_def)
  moreover have "fst (suffix_step op st) =
     (if increment op then Some (to_str (name op) @ ''+'')
      else if decrement op then Some (to_str (name op) @ ''-'')
      else name op)"
    by (simp add: suffix_step_def)
  ultimately show ?thesis
    by (simp add: callback_names suffix_step_names name_part_def)
qed

theorem suffix_and_name_part_witness:
  "describe ''0x22''
     \<lparr>mnemonic = Some ''LD'',
      operands = Some [\<lparr>name = Some ''HL'', immediate = True, increment = True, decrement = False\<rparr>,
                       \<lparr>name = Some ''A'', immediate = True, increment = False, decrement = False\<rparr>],
      cycles = Some [8]\<rparr>
   = Inr \<lparr>testName = ''ld_hl_increment_a'', code = [''0x22''],
          assembly = ''LD HL+, A'', machineCycles = Number 2\<rparr>
   \<and> operand_callback \<lparr>name = Some ''HL'', immediate = True, increment = True, decrement = False\<rparr>
        \<lparr>testNames = [Some ''LD''], machineCode = [''0x22'']\<rparr>
       = (Some ''HL+'', \<lparr>testNames = [Some ''LD'', Some ''HL_increment''], machineCode = [''0x22'']\<rparr>)"
proof -
  have d: "describe ''0x22''
     \<lparr>mnemonic = Some ''LD'',
      operands = Some [\<lparr>name = Some ''HL'', immediate = True, increment = True, decrement = False\<rparr>,
                       \<lparr>name = Some ''A'', immediate = True, increment = False, decrement = False\<rparr>],
      cycles = Some [8]\<rparr>
   = Inr \<lparr>testName = ''ld_hl_increment_a'', code = [''0x22''],
          assembly = ''LD HL+, A'', machineCycles = Number 2\<rparr>"
    by code_simp
  show ?thesis
    using d suffix_and_name_part
      [of "\<lparr>name = Some ''HL'', immediate = True, increment = True, decrement = False\<rparr>"
          "\<lparr>testNames = [Some ''LD''], machineCode = [''0x22'']\<rparr>"]
    by simp
qed

text \<open>
  C10. With both flags set the increment branch is the one taken: the value gets the
  suffix \<^verbatim>\<open>+\<close> and not \<^verbatim>\<open>-\<close>, and the part pushed ends in \<^verbatim>\<open>_increment\<close>, not in
  \<^verbatim>\<open>_decrement\<close>. After the \<^verbatim>\<open>switch\<close> the value is still the name with \<^verbatim>\<open>+\<close>, unless
  the name is a placeholder, whose literal has replaced it.
\<close>

theorem increment_precedence:
  assumes "increment op" and "decrement op"
  shows "fst (suffix_step op st) = Some (to_str (name op) @ ''+'')
    \<and> fst (suffix_step op st) \<noteq> Some (to_str (name op) @ ''-'')
    \<and> testNames (snd (operand_callback op st)) = testNames st @ [Some (to_str (name op) @ ''_increment'')]
    \<and> last (testNames (snd (operand_callback op st))) \<noteq> Some (to_str (name op) @ ''_decrement'')
    \<and> fst (rendered_value op st) \<noteq> Some (to_str (name op) @ ''-'')
    \<and> fst (rendered_value op st) =
        (if two_byte_name (name op) then Some ''0x1234''
         else if one_byte_name (name op) then (if name op = Some ''e8'' then Some ''123'' else Some ''0x12'')
         else Some (to_str (name op) @ ''+''))"
proof -
  have a: "fst (suffix_step op st) = Some (to_str (name op) @ ''+'')"
    using assms by (simp add: suffix_step_def)
  have b: "testNames (snd (operand_callback op st)) = testNames st @ [Some (to_str (name op) @ ''_increment'')]"
    using assms by (simp add: callback_names name_part_def)
  have c: "fst (rendered_value op st) \<noteq> Some (to_str (name op) @ ''-'')"
    using assms by (auto simp: rendered_value_fst to_str_def)
  have d: "fst (rendered_value op st) =
        (if two_byte_name (name op) then Some ''0x1234''
         else if one_byte_name (name op) then (if name op = Some ''e8'' then Some ''123'' else Some ''0x12'')
         else Some (to_str (name op) @ ''+''))"
    using assms by (auto simp: rendered_value_fst two_byte_name_def one_byte_name_def)
  show ?thesis
    using a b c d by simp
qed

theorem increment_precedence_witness:
  "operand_callback \<lparr>name = Some ''HL'', immediate = False, increment = True, decrement = True\<rparr>
        \<lparr>testNames = [Some ''LD''], machineCode = [''0x22'']\<rparr>
       = (Some ''(HL+)'', \<lparr>testNames = [Some ''LD'', Some ''HL_increment''], machineCode = [''0x22'']\<rparr>)
   \<and> fst (suffix_step \<lparr>name = Some ''HL'', immediate = False, increment = True, decrement = True\<rparr>
        \<lparr>testNames = [Some ''LD''], machineCode = [''0x22'']\<rparr>) = Some ''HL+''"
proof -
  have c: "operand_callback \<lparr>name = Some ''HL'', immediate = False, increment = True, decrement = True\<rparr>
        \<lparr>testNames = [Some ''LD''], machineCode = [''0x22'']\<rparr>
       = (Some ''(HL+)'', \<lparr>testNames = [Some ''LD'', Some ''HL_increment''], machineCode = [''0x22'']\<rparr>)"
    by code_simp
  have i: "increment \<lparr>name = Some ''HL'', immediate = False, increment = True, decrement = True\<rparr>"
    and d: "decrement \<lparr>name = Some ''HL'', immediate = False, increment = True, decrement = True\<rparr>"
    by simp_all
  show ?thesis
    using c increment_precedence [OF i d, of "\<lparr>testNames = [Some ''LD''], machineCode = [''0x22'']\<rparr>"]
    by (simp add: to_str_def two_byte_name_def one_byte_name_def)
qed


section \<open>The test name\<close>

lemma lower_char_not_upper: "\<not> is_upper (lower_char c)"
proof (cases "is_upper c")
  case False
  then show ?thesis by (simp add: lower_char_def)
next
  case True
  define n where "n = (of_char c :: nat)"
  have "(65 \<le> n \<and> n \<le> 90) \<or> (192 \<le> n \<and> n \<le> 222 \<and> n \<noteq> 215)"
    using True by (simp add: is_upper_def n_def Let_def)
  then have "\<not> is_upper (char_of (n + 32))"
    by (auto simp: is_upper_def Let_def)
  then show ?thesis
    using True by (simp add: lower_char_def n_def)
qed

lemma lower_char_idem: "lower_char (lower_char c) = lower_char c"
  using lower_char_not_upper [of c] by (simp add: lower_char_def [of "lower_char c"])

lemma test_name_no_dollar: "CHR ''$'' \<notin> set (test_name parts)"
  by (simp add: test_name_def replaceAll_dollar_def)

lemma test_name_no_upper: "c \<in> set (test_name parts) \<Longrightarrow> \<not> is_upper c"
  by (auto simp: test_name_def replaceAll_dollar_def toLowerCase_def lower_char_not_upper)

lemma test_name_lower: "toLowerCase (test_name parts) = test_name parts"
proof -
  have "map lower_char (filter P (map lower_char s)) = filter P (map lower_char s)" for P s
    by (induction s) (simp_all add: lower_char_idem)
  then show ?thesis
    by (simp add: test_name_def replaceAll_dollar_def toLowerCase_def)
qed

text \<open>
  C5. The test name of an entry is the mnemonic and the parts of the operands joined by
  underscores, in lower case, with every dollar sign removed. It has no dollar sign and no
  upper-case letter, and lower-casing it again changes nothing.
\<close>

theorem test_name_lower_case:
  assumes "describe opcode e = Inr d" and "operands e = Some ops"
  shows "testName d = replaceAll_dollar (toLowerCase (js_join ''_'' (mnemonic e # map name_part ops)))
    \<and> CHR ''$'' \<notin> set (testName d)
    \<and> (\<forall>c \<in> set (testName d). \<not> is_upper c)
    \<and> toLowerCase (testName d) = testName d"
proof -
  have "testName d = test_name (testNames (snd (map_operands ops (init opcode e))))"
    using assms by (rule describe_Inr)
  then have t: "testName d = test_name (mnemonic e # map name_part ops)"
    by (simp add: map_operands_names init_def)
  have "testName d = replaceAll_dollar (toLowerCase (js_join ''_'' (mnemonic e # map name_part ops)))"
    unfolding t by (simp only: test_name_def)
  moreover have "CHR ''$'' \<notin> set (testName d)"
    unfolding t by (rule test_name_no_dollar)
  moreover have "\<forall>c \<in> set (testName d). \<not> is_upper c"
    unfolding t using test_name_no_upper by blast
  moreover have "toLowerCase (testName d) = testName d"
    unfolding t by (rule test_name_lower)
  ultimately show ?thesis by blast
qed

theorem test_name_lower_case_witness:
  "describe ''0xC7''
     \<lparr>mnemonic = Some ''RST'',
      operands = Some [\<lparr>name = Some ''$00'', immediate = True, increment = False, decrement = False\<rparr>],
      cycles = Some [16]\<rparr>
   = Inr \<lparr>testName = ''rst_00'', code = [''0xC7''], assembly = ''RST $00'', machineCycles = Number 4\<rparr>
   \<and> CHR ''$'' \<notin> set ''rst_00''
   \<and> toLowerCase ''rst_00'' = ''rst_00''"
proof -
  have d: "describe ''0xC7''
     \<lparr>mnemonic = Some ''RST'',
      operands = Some [\<lparr>name = Some ''$00'', immediate = True, increment = False, decrement = False\<rparr>],
      cycles = Some [16]\<rparr>
   = Inr \<lparr>testName = ''rst_00'', code = [''0xC7''], assembly = ''RST $00'', machineCycles = Number 4\<rparr>"
    by code_simp
  have o: "operands
     \<lparr>mnemonic = Some ''RST'',
      operands = Some [\<lparr>name = Some ''$00'', immediate = True, increment = False, decrement = False\<rparr>],
      cycles = Some [16]\<rparr>
   = Some [\<lparr>name = Some ''$00'', immediate = True, increment = False, decrement = False\<rparr>]"
    by simp
  have t: "testName \<lparr>testName = ''rst_00'', code = [''0xC7''], assembly = ''RST $00'',
      machineCycles = Number 4\<rparr> = ''rst_00''"
    by simp
  show ?thesis
    using d test_name_lower_case [OF d o, unfolded t] by blast
qed

section \<open>Machine cycles\<close>

text \<open>
  C6. The machine cycles of an entry are the first cycle count divided by four as a
  fraction, not as an integer quotient: they are a whole number only when the count is a
  multiple of four. A count of 1 gives 1/4, written \<^verbatim>\<open>0.25\<close>; a count of 8 gives 2,
  written \<^verbatim>\<open>2\<close>.
\<close>

theorem machine_cycles_quotient:
  assumes "describe opcode e = Inr d" and "cycles e = Some (c # cs)"
  shows "machineCycles d = Number (of_int c / 4)
    \<and> (machineCycles d = Number (of_int n)) = (c = 4 * n)
    \<and> machine_cycles [1] = Number (1 / 4)
    \<and> number_to_string (machine_cycles [1]) = ''0.25''
    \<and> machine_cycles [8] = Number 2
    \<and> number_to_string (machine_cycles [8]) = ''2''"
proof -
  obtain ops where "operands e = Some ops"
    using assms(1) by (cases "operands e") (simp_all add: describe_def)
  then obtain cs' where "cycles e = Some cs'" and "machineCycles d = machine_cycles cs'"
    using describe_Inr(4) [OF assms(1)] by blast
  then have m: "machineCycles d = Number (of_int c / 4)"
    using assms(2) by (auto simp: machine_cycles_def)
  have "(rat_of_int c / 4 = rat_of_int n) = (c = 4 * n)"
  proof
    assume "rat_of_int c / 4 = rat_of_int n"
    then have "rat_of_int c = rat_of_int (4 * n)" by simp
    then show "c = 4 * n" by (simp only: of_int_eq_iff)
  next
    assume "c = 4 * n"
    then show "rat_of_int c / 4 = rat_of_int n" by simp
  qed
  moreover have "number_to_string (machine_cycles [1]) = ''0.25''" by code_simp
  moreover have "number_to_string (machine_cycles [8]) = ''2''" by code_simp
  ultimately show ?thesis
    using m by (simp add: machine_cycles_def)
qed

theorem machine_cycles_quotient_witness:
  \<open>describe ''0x00'' \<lparr>mnemonic = Some ''NOP'', operands = Some [], cycles = Some [1]\<rparr>
   = Inr \<lparr>testName = ''nop'', code = [''0x00''], assembly = ''NOP'', machineCycles = Number (1 / 4)\<rparr>
   \<and> line \<lparr>testName = ''nop'', code = [''0x00''], assembly = ''NOP'', machineCycles = Number (1 / 4)\<rparr>
       = ''            nop: 0x00 => "NOP", 0.25,''
   \<and> number_to_string (machine_cycles [1]) = ''0.25''
   \<and> Number (1 / 4) \<noteq> Number 0\<close>
proof -
  have d: "describe ''0x00'' \<lparr>mnemonic = Some ''NOP'', operands = Some [], cycles = Some [1]\<rparr>
   = Inr \<lparr>testName = ''nop'', code = [''0x00''], assembly = ''NOP'', machineCycles = Number (1 / 4)\<rparr>"
    by code_simp
  have c: "cycles \<lparr>mnemonic = Some ''NOP'', operands = Some [], cycles = Some [1]\<rparr> = Some [1]"
    by simp
  have l: \<open>line \<lparr>testName = ''nop'', code = [''0x00''], assembly = ''NOP'', machineCycles = Number (1 / 4)\<rparr>
       = ''            nop: 0x00 => "NOP", 0.25,''\<close>
    by code_simp
  have n: "Number (1 / 4) \<noteq> Number 0"
    by simp
  show ?thesis
    using d l n machine_cycles_quotient [OF d c, of 0] by blast
qed


section \<open>The assembly text\<close>

lemma is_space_blank: "is_space CHR '' ''"
  by (simp add: is_space_def)

lemma trim_append_blank: "trim (s @ '' '') = trim s"
proof (cases "\<forall>c \<in> set s. is_space c")
  case True
  then have a: "dropWhile is_space s = []"
    by simp
  from True have b: "dropWhile is_space (s @ '' '') = []"
    by (simp add: dropWhile_append is_space_blank)
  show ?thesis
    unfolding trim_def a b by (rule refl)
next
  case False
  then have c: "dropWhile is_space (s @ '' '') = dropWhile is_space s @ '' ''"
    by (simp add: dropWhile_append)
  show ?thesis
    unfolding trim_def c by (simp add: is_space_blank)
qed

lemma trim_not_padded: "\<not> padded s \<Longrightarrow> trim s = s"
proof (cases s)
  case Nil
  then show ?thesis by (simp add: trim_def)
next
  case (Cons c cs)
  assume "\<not> padded s"
  then have a: "\<not> is_space c" and b: "\<not> is_space (last s)"
    using Cons by (simp_all add: padded_def)
  have s: "s = butlast s @ [last s]"
    using Cons by simp
  have "dropWhile is_space s = s"
    using Cons a by simp
  moreover have "dropWhile is_space (rev s) = rev s"
    by (subst s, subst (2) s) (simp add: b)
  ultimately show ?thesis by (simp add: trim_def)
qed

text \<open>
  C7 (as amended). The assembly text of an entry is the mnemonic, a space and the tokens of
  the operands joined by a comma and a space, trimmed. With no operands this is the trimmed
  mnemonic, with no space after it; it is the mnemonic itself when the mnemonic neither
  begins nor ends with white space.
\<close>

theorem assembly_text:
  assumes "describe opcode e = Inr d" and "operands e = Some ops"
  shows "assembly d =
      trim (to_str (mnemonic e) @ '' '' @
        js_join '', '' (map (\<lambda>op. fst (operand_callback op (init opcode e))) ops))
    \<and> (ops = [] \<longrightarrow> assembly d = trim (to_str (mnemonic e)))
    \<and> (ops = [] \<and> mnemonic e = Some m \<and> \<not> padded m \<longrightarrow> assembly d = m)"
proof -
  have "assembly d =
      trim (to_str (mnemonic e) @ '' '' @ js_join '', '' (fst (map_operands ops (init opcode e))))"
    using assms by (rule describe_Inr)
  then have a: "assembly d =
      trim (to_str (mnemonic e) @ '' '' @
        js_join '', '' (map (\<lambda>op. fst (operand_callback op (init opcode e))) ops))"
    by (simp only: map_operands_tokens [of ops "init opcode e" "init opcode e"])
  have b: "assembly d = trim (to_str (mnemonic e))" if "ops = []"
    using a that by (simp add: trim_append_blank)
  have c: "assembly d = m" if "ops = []" and "mnemonic e = Some m" and "\<not> padded m"
    using b that by (simp add: to_str_def trim_not_padded)
  show ?thesis
    using a b c by blast
qed

theorem assembly_text_witness:
  "describe ''0x00'' \<lparr>mnemonic = Some ''NOP'', operands = Some [], cycles = Some [4]\<rparr>
   = Inr \<lparr>testName = ''nop'', code = [''0x00''], assembly = ''NOP'', machineCycles = Number 1\<rparr>
   \<and> \<not> padded ''NOP''
   \<and> ''NOP'' = trim (to_str (Some ''NOP''))"
proof -
  have d: "describe ''0x00'' \<lparr>mnemonic = Some ''NOP'', operands = Some [], cycles = Some [4]\<rparr>
   = Inr \<lparr>testName = ''nop'', code = [''0x00''], assembly = ''NOP'', machineCycles = Number 1\<rparr>"
    by code_simp
  have o: "operands \<lparr>mnemonic = Some ''NOP'', operands = Some [], cycles = Some [4]\<rparr> = Some []"
    by simp
  have p: "\<not> padded ''NOP''"
    by code_simp
  show ?thesis
    using d p assembly_text [OF d o, of "''NOP''"] by simp
qed

text \<open>
  C7 as the specification states it fails for a mnemonic with white space at an end, which
  \<^verbatim>\<open>trim\<close> removes with the space of the template: the assembly text of \<^verbatim>\<open>"HALT "\<close> with no
  operands is \<^verbatim>\<open>"HALT"\<close>.
\<close>

theorem assembly_text_counterexample:
  "describe ''0x76'' \<lparr>mnemonic = Some ''HALT '', operands = Some [], cycles = Some [4]\<rparr>
   = Inr \<lparr>testName = ''halt '', code = [''0x76''], assembly = ''HALT'', machineCycles = Number 1\<rparr>
   \<and> ''HALT'' \<noteq> ''HALT ''"
  by code_simp


section \<open>The run over the table\<close>

lemma describe_present:
  assumes "operands e = Some ops" and "cycles e = Some cs"
  shows "\<exists>d. describe k e = Inr d \<and> hd (code d) = k \<and> machineCycles d = machine_cycles cs"
proof -
  obtain bs where "machineCode (snd (map_operands ops (init k e))) = machineCode (init k e) @ bs"
    using map_operands_code_prefix by blast
  then have "hd (machineCode (snd (map_operands ops (init k e)))) = k"
    by (simp add: init_def)
  then show ?thesis
    using assms by (simp add: describe_def split_def Let_def)
qed

lemma describe_error: "operands e = None \<or> cycles e = None \<Longrightarrow> describe k e = Inl TypeError"
  by (auto simp: describe_def split_def Let_def split: option.splits)

lemma run_present:
  assumes "\<forall>(k, e) \<in> set table. operands e \<noteq> None \<and> cycles e \<noteq> None"
  shows "\<exists>ds. map (\<lambda>(k, e). describe k e) table = map Inr ds
    \<and> map (\<lambda>d. hd (code d)) ds = map fst table
    \<and> run table = (map line ds, None)"
  using assms
proof (induction table)
  case Nil
  show ?case by simp
next
  case (Cons p table)
  obtain k e where p: "p = (k, e)" by (cases p)
  from Cons.prems p obtain ops cs where "operands e = Some ops" and "cycles e = Some cs"
    by auto
  then obtain d where d: "describe k e = Inr d" "hd (code d) = k"
    using describe_present by blast
  from Cons.prems have "\<forall>(k, e) \<in> set table. operands e \<noteq> None \<and> cycles e \<noteq> None"
    by simp
  then obtain ds where ds: "map (\<lambda>(k, e). describe k e) table = map Inr ds"
      "map (\<lambda>d. hd (code d)) ds = map fst table" "run table = (map line ds, None)"
    using Cons.IH by blast
  have "map (\<lambda>(k, e). describe k e) (p # table) = map Inr (d # ds)
    \<and> map (\<lambda>d. hd (code d)) (d # ds) = map fst (p # table)
    \<and> run (p # table) = (map line (d # ds), None)"
    using p d ds by simp
  then show ?case by blast
qed

lemma run_stops:
  assumes "snd (run pre) = None" and "operands e = None \<or> cycles e = None"
  shows "run (pre @ (k, e) # post) = (fst (run pre), Some TypeError)"
  using assms(1)
proof (induction pre)
  case Nil
  have "describe k e = Inl TypeError"
    using assms(2) by (rule describe_error)
  then show ?case by simp
next
  case (Cons p pre)
  obtain k' e' where p: "p = (k', e')" by (cases p)
  show ?case
  proof (cases "describe k' e'")
    case (Inl err)
    then show ?thesis using Cons.prems p by simp
  next
    case (Inr d)
    then have "snd (run pre) = None"
      using Cons.prems p by (simp add: split_def Let_def)
    then have "run (pre @ (k, e) # post) = (fst (run pre), Some TypeError)"
      by (rule Cons.IH)
    then show ?thesis
      using Inr p by (simp add: split_def Let_def)
  qed
qed

text \<open>
  C8. When every entry of the table has its operands and its cycles, the run ends without
  an exception and has written the lines of the entries, one for each entry in the order of
  the table and nothing else. A line is twelve spaces, the test name, a colon and a space,
  the elements of the machine code joined by a comma and a space, the arrow, the assembly
  text in double quotes, a comma and a space, the machine cycles and a comma. The first
  element of the machine code is the key of the entry.
\<close>

theorem one_line_per_entry:
  assumes "\<forall>(k, e) \<in> set table. operands e \<noteq> None \<and> cycles e \<noteq> None"
  shows \<open>(\<exists>ds. map (\<lambda>(k, e). describe k e) table = map Inr ds
      \<and> map (\<lambda>d. hd (code d)) ds = map fst table
      \<and> run table = (map line ds, None))
    \<and> length (fst (run table)) = length table
    \<and> line d = ''            '' @ testName d @ '': '' @ js_join '', '' (map Some (code d))
         @ '' => "'' @ assembly d @ ''", '' @ number_to_string (machineCycles d) @ '',''\<close>
proof -
  obtain ds where ds: "map (\<lambda>(k, e). describe k e) table = map Inr ds"
      "map (\<lambda>d. hd (code d)) ds = map fst table" "run table = (map line ds, None)"
    using run_present [OF assms] by blast
  have "length ds = length table"
    using ds(2) by (metis length_map)
  then have "length (fst (run table)) = length table"
    using ds(3) by simp
  moreover have \<open>line d = ''            '' @ testName d @ '': '' @ js_join '', '' (map Some (code d))
         @ '' => "'' @ assembly d @ ''", '' @ number_to_string (machineCycles d) @ '',''\<close>
    by (simp add: line_def)
  ultimately show ?thesis
    using ds by blast
qed

theorem one_line_per_entry_witness:
  \<open>run [(''0x00'', \<lparr>mnemonic = Some ''NOP'', operands = Some [], cycles = Some [4]\<rparr>),
        (''0x36'',
         \<lparr>mnemonic = Some ''LD'',
          operands = Some [\<lparr>name = Some ''HL'', immediate = False, increment = False, decrement = False\<rparr>,
                           \<lparr>name = Some ''n8'', immediate = True, increment = False, decrement = False\<rparr>],
          cycles = Some [12]\<rparr>)]
   = ([''            nop: 0x00 => "NOP", 1,'',
       ''            ld_hl_n8: 0x36, 0x12 => "LD (HL), 0x12", 3,''], None)\<close>
proof -
  let ?T = "[(''0x00'', \<lparr>mnemonic = Some ''NOP'', operands = Some [], cycles = Some [4]\<rparr>),
        (''0x36'',
         \<lparr>mnemonic = Some ''LD'',
          operands = Some [\<lparr>name = Some ''HL'', immediate = False, increment = False, decrement = False\<rparr>,
                           \<lparr>name = Some ''n8'', immediate = True, increment = False, decrement = False\<rparr>],
          cycles = Some [12]\<rparr>)]"
  let ?d1 = "\<lparr>testName = ''nop'', code = [''0x00''], assembly = ''NOP'', machineCycles = Number 1\<rparr>"
  let ?d2 = "\<lparr>testName = ''ld_hl_n8'', code = [''0x36'', ''0x12''], assembly = ''LD (HL), 0x12'',
      machineCycles = Number 3\<rparr>"
  have h: "\<forall>(k, e) \<in> set ?T. operands e \<noteq> None \<and> cycles e \<noteq> None"
    by simp
  have m: "map (\<lambda>(k, e). describe k e) ?T = [Inr ?d1, Inr ?d2]"
    by code_simp
  have l: \<open>map line [?d1, ?d2] = [''            nop: 0x00 => "NOP", 1,'',
       ''            ld_hl_n8: 0x36, 0x12 => "LD (HL), 0x12", 3,'']\<close>
    by code_simp
  from one_line_per_entry [OF h] obtain ds
    where a: "map (\<lambda>(k, e). describe k e) ?T = map Inr ds" and r: "run ?T = (map line ds, None)"
    by blast
  from a [unfolded m] have "ds = [?d1, ?d2]"
    by auto
  with r l show ?thesis
    by simp
qed

text \<open>
  C9 (as amended). An entry whose operands or whose cycles are absent fails: the access
  throws a \<^verbatim>\<open>TypeError\<close>, which ends the run with the lines of the earlier entries written
  and none for this entry or a later one. Two other gaps are no failure, for an entry whose
  operands are an array of operand objects and whose cycles are an array: with an empty
  array of cycles, so that \<^verbatim>\<open>cycles[0]\<close> is \<^verbatim>\<open>undefined\<close>, the machine cycles are
  \<^verbatim>\<open>NaN\<close>; with no mnemonic, the assembly text has \<^verbatim>\<open>undefined\<close> in its place and the
  test name has nothing in its place.
\<close>

theorem missing_field:
  "(operands e = None \<or> cycles e = None \<longrightarrow> describe k e = Inl TypeError)
   \<and> (snd (run pre) = None \<and> (operands e = None \<or> cycles e = None) \<longrightarrow>
        run (pre @ (k, e) # post) = (fst (run pre), Some TypeError))
   \<and> (operands e1 = Some ops1 \<and> cycles e1 = Some [] \<longrightarrow>
        (\<exists>d. describe k1 e1 = Inr d \<and> machineCycles d = NaN))
   \<and> (mnemonic e2 = None \<and> operands e2 = Some ops2 \<and> cycles e2 = Some cs2 \<longrightarrow>
        (\<exists>d. describe k2 e2 = Inr d
           \<and> assembly d = trim (''undefined '' @
                 js_join '', '' (map (\<lambda>op. fst (operand_callback op (init k2 e2))) ops2))
           \<and> testName d = test_name (None # map name_part ops2)))"
proof -
  have a: "\<exists>d. describe k1 e1 = Inr d \<and> machineCycles d = NaN"
    if "operands e1 = Some ops1" and "cycles e1 = Some []"
    using describe_present [OF that, of k1] by (auto simp: machine_cycles_def)
  have b: "\<exists>d. describe k2 e2 = Inr d
           \<and> assembly d = trim (''undefined '' @
                 js_join '', '' (map (\<lambda>op. fst (operand_callback op (init k2 e2))) ops2))
           \<and> testName d = test_name (None # map name_part ops2)"
    if m: "mnemonic e2 = None" and o: "operands e2 = Some ops2" and c: "cycles e2 = Some cs2"
  proof -
    obtain d where d: "describe k2 e2 = Inr d"
      using describe_present [OF o c, of k2] by blast
    have "assembly d =
        trim (to_str (mnemonic e2) @ '' '' @ js_join '', '' (fst (map_operands ops2 (init k2 e2))))"
      using d o by (rule describe_Inr)
    then have "assembly d = trim (''undefined '' @
        js_join '', '' (map (\<lambda>op. fst (operand_callback op (init k2 e2))) ops2))"
      by (simp add: m to_str_def map_operands_tokens [of ops2 "init k2 e2" "init k2 e2"])
    moreover have "testName d = test_name (testNames (snd (map_operands ops2 (init k2 e2))))"
      using d o by (rule describe_Inr)
    then have "testName d = test_name (None # map name_part ops2)"
      by (simp add: map_operands_names init_def m)
    ultimately show ?thesis
      using d by blast
  qed
  show ?thesis
    using a b describe_error [of e k] run_stops [of pre e k post] by blast
qed

theorem missing_field_witness:
  \<open>run ([(''0x00'', \<lparr>mnemonic = Some ''NOP'', operands = Some [], cycles = Some [4]\<rparr>)]
        @ (''0x01'', \<lparr>mnemonic = Some ''LD'', operands = None, cycles = Some [12]\<rparr>)
        # [(''0x76'', \<lparr>mnemonic = Some ''HALT'', operands = Some [], cycles = Some [4]\<rparr>)])
   = ([''            nop: 0x00 => "NOP", 1,''], Some TypeError)
   \<and> describe ''0x01'' \<lparr>mnemonic = Some ''LD'', operands = None, cycles = Some [12]\<rparr> = Inl TypeError
   \<and> (\<exists>d. describe ''0x10'' \<lparr>mnemonic = Some ''STOP'', operands = Some [], cycles = Some []\<rparr> = Inr d
          \<and> machineCycles d = NaN)
   \<and> (\<exists>d. describe ''0x00'' \<lparr>mnemonic = None, operands = Some [], cycles = Some [4]\<rparr> = Inr d
          \<and> assembly d = trim (''undefined '' @ js_join '', ''
                (map (\<lambda>op. fst (operand_callback op
                   (init ''0x00'' \<lparr>mnemonic = None, operands = Some [], cycles = Some [4]\<rparr>))) []))
          \<and> testName d = test_name (None # map name_part []))\<close>
proof -
  let ?pre = "[(''0x00'', \<lparr>mnemonic = Some ''NOP'', operands = Some [], cycles = Some [4]\<rparr>)]"
  let ?e = "\<lparr>mnemonic = Some ''LD'', operands = None, cycles = Some [12]\<rparr>"
  let ?e1 = "\<lparr>mnemonic = Some ''STOP'', operands = Some [], cycles = Some []\<rparr>"
  let ?e2 = "\<lparr>mnemonic = None, operands = Some [], cycles = Some [4]\<rparr>"
  have r: \<open>run ?pre = ([''            nop: 0x00 => "NOP", 1,''], None)\<close>
    by code_simp
  have s: "snd (run ?pre) = None \<and> (operands ?e = None \<or> cycles ?e = None)"
    unfolding r by simp
  have t: "operands ?e1 = Some [] \<and> cycles ?e1 = Some []"
    by simp
  have u: "operands ?e = None \<or> cycles ?e = None"
    by simp
  have v: "mnemonic ?e2 = None \<and> operands ?e2 = Some [] \<and> cycles ?e2 = Some [4]"
    by simp
  note w = missing_field [where k = "''0x01''" and e = ?e and pre = ?pre
      and post = "[(''0x76'', \<lparr>mnemonic = Some ''HALT'', operands = Some [], cycles = Some [4]\<rparr>)]"
      and ?e1.0 = ?e1 and ?ops1.0 = "[]" and ?k1.0 = "''0x10''"
      and ?e2.0 = ?e2 and ?ops2.0 = "[]" and ?cs2.0 = "[4]" and ?k2.0 = "''0x00''"]
  show ?thesis
    using w s t u v unfolding r fst_conv by blast
qed

text \<open>
  C9 as the specification states it fails for an entry without a mnemonic and for an entry
  whose \<^verbatim>\<open>cycles[0]\<close> is \<^verbatim>\<open>undefined\<close>: the run writes a line for each and ends without
  an exception.
\<close>

theorem missing_field_counterexample:
  \<open>run [(''0x00'', \<lparr>mnemonic = None, operands = Some [], cycles = Some [4]\<rparr>),
        (''0x10'', \<lparr>mnemonic = Some ''STOP'', operands = Some [], cycles = Some []\<rparr>)]
   = ([''            : 0x00 => "undefined", 1,'',
       ''            stop: 0x10 => "STOP", NaN,''], None)\<close>
  by code_simp


end
